theory Spec2Isabelle
  imports Main "HOL-Library.AList"
begin

section \<open>Operation tracker (core/utils/async-manager.ts)\<close>

text \<open>
  The interface \<open>OperationStatus\<close>: the status is one of three string literals, the
  optional fields are options (\<open>None\<close> is the absent field). \<open>Date.now()\<close> is a
  number of milliseconds, an \<open>int\<close> here. The result has type \<open>any\<close> in the source
  and is a type parameter here.
\<close>

datatype op_status = Pending | Completed | Failed

record 'r OperationStatus =
  status :: op_status
  startTime :: int
  endTime :: "int option"
  duration :: "int option"
  result :: "'r option"
  error :: "string option"

text \<open>
  The class \<open>AsyncOperationManager\<close>. Its field \<open>operations\<close> is a JavaScript
  \<open>Map\<close>: an association list in insertion order, where \<open>Map.set\<close> on a present key
  replaces the value in place and on an absent key appends (\<open>AList.update\<close>),
  \<open>Map.get\<close> is \<open>map_of\<close> and \<open>Map.delete\<close> is \<open>AList.delete\<close>. The callbacks
  handed to \<open>setTimeout\<close> live in the event loop; they are kept in \<open>timers\<close> as
  pairs of the time at which the callback is due and the id it deletes.
\<close>

record 'r AsyncOperationManager =
  operations :: "(string \<times> 'r OperationStatus) list"
  timers :: "(int \<times> string) list"

definition new_manager :: "'r AsyncOperationManager" where
  "new_manager = \<lparr>operations = [], timers = []\<rparr>"

text \<open>The second argument of \<open>failOperation\<close> has type \<open>Error | string\<close>.\<close>

datatype error_arg = ErrorObject string | ErrorString string

fun error_message :: "error_arg \<Rightarrow> string" where
  "error_message (ErrorObject m) = m"
| "error_message (ErrorString s) = s"

definition retention :: int where
  "retention = 3600000"

text \<open>
  \<open>startOperation\<close>: the identifier that \<open>uuidv4()\<close> produces and the value of
  \<open>Date.now()\<close> are inputs; the method returns the identifier.
\<close>

definition startOperation ::
  "string \<Rightarrow> int \<Rightarrow> 'r AsyncOperationManager \<Rightarrow> string \<times> 'r AsyncOperationManager" where
  "startOperation uuid now m =
     (uuid, m\<lparr>operations := AList.update uuid
        \<lparr>status = Pending, startTime = now, endTime = None, duration = None,
         result = None, error = None\<rparr> (operations m)\<rparr>)"

text \<open>
  \<open>completeOperation\<close> and \<open>failOperation\<close>: an unknown id logs a warning and
  returns; otherwise the record is copied (\<open>...operation\<close>) with the four named
  fields replaced, and a deletion is scheduled one hour later.
\<close>

definition completeOperation ::
  "int \<Rightarrow> string \<Rightarrow> 'r \<Rightarrow> 'r AsyncOperationManager \<Rightarrow> 'r AsyncOperationManager" where
  "completeOperation now operationId res m =
     (case map_of (operations m) operationId of
        None \<Rightarrow> m
      | Some operation \<Rightarrow>
          (let endT = now; dur = endT - startTime operation
           in m\<lparr>operations := AList.update operationId
                  (operation\<lparr>status := Completed, endTime := Some endT,
                              duration := Some dur, result := Some res\<rparr>) (operations m),
                timers := timers m @ [(now + retention, operationId)]\<rparr>))"

definition failOperation ::
  "int \<Rightarrow> string \<Rightarrow> error_arg \<Rightarrow> 'r AsyncOperationManager \<Rightarrow> 'r AsyncOperationManager" where
  "failOperation now operationId err m =
     (case map_of (operations m) operationId of
        None \<Rightarrow> m
      | Some operation \<Rightarrow>
          (let endT = now; dur = endT - startTime operation;
               errorMessage = error_message err
           in m\<lparr>operations := AList.update operationId
                  (operation\<lparr>status := Failed, endTime := Some endT,
                              duration := Some dur, error := Some errorMessage\<rparr>) (operations m),
                timers := timers m @ [(now + retention, operationId)]\<rparr>))"

text \<open>
  \<open>getOperationStatus\<close> is \<open>this.operations.get(operationId) || null\<close> and
  \<open>getOperationResult\<close> tests the same value with \<open>!operation\<close>. A stored record is an
  object, hence truthy, so both yield the record when there is one and \<open>null\<close>
  (\<open>None\<close>) otherwise.
\<close>

definition getOperationStatus ::
  "string \<Rightarrow> 'r AsyncOperationManager \<Rightarrow> 'r OperationStatus option" where
  "getOperationStatus operationId m =
     (case map_of (operations m) operationId of None \<Rightarrow> None | Some operation \<Rightarrow> Some operation)"

definition getOperationResult ::
  "string \<Rightarrow> 'r AsyncOperationManager \<Rightarrow> 'r OperationStatus option" where
  "getOperationResult operationId m =
     (case map_of (operations m) operationId of None \<Rightarrow> None | Some operation \<Rightarrow> Some operation)"

text \<open>
  The event loop at time \<open>now\<close>: every callback that is due runs, in the order in
  which it was scheduled, and deletes its id from the map.
\<close>

fun run_callbacks ::
  "(int \<times> string) list \<Rightarrow> (string \<times> 'r OperationStatus) list \<Rightarrow> (string \<times> 'r OperationStatus) list" where
  "run_callbacks [] ops = ops"
| "run_callbacks ((due, operationId) # cbs) ops = run_callbacks cbs (AList.delete operationId ops)"

definition run_timers :: "int \<Rightarrow> 'r AsyncOperationManager \<Rightarrow> 'r AsyncOperationManager" where
  "run_timers now m =
     m\<lparr>operations := run_callbacks (filter (\<lambda>(due, i). due \<le> now) (timers m)) (operations m),
       timers := filter (\<lambda>(due, i). \<not> due \<le> now) (timers m)\<rparr>"

section \<open>The file system seen by the store\<close>

text \<open>
  The store works on one flat directory through \<open>fs-extra\<close>. The directory is
  \<open>None\<close> while it does not exist and otherwise the list of its entries, a name
  with the bytes of the file, in the order \<open>readdir\<close> reports them. File names are
  taken as names of direct entries of the memory bank directory, so
  \<open>path.join(memoryBankPath, name)\<close> is the entry \<open>name\<close> and its \<open>dirname\<close> is the
  memory bank directory. Every call of the capability can fail: \<open>faults\<close> says which
  calls the environment refuses (permissions, a full disk, a broken device). \<open>calls\<close>
  records the calls made, oldest first; it is what "a store read" is counted on.
\<close>

datatype io_call =
  EnsureDir | PathExists string | ReadFile string | WriteFile string | Readdir | Stat string

datatype io_error = ENOENT io_call | EIO io_call

record filesystem =
  dir :: "(string \<times> string) list option"
  faults :: "io_call \<Rightarrow> bool"
  calls :: "io_call list"

text \<open>
  The text of \<open>err.message\<close> for an error of the file system: its code, what the code
  means and the system call. Node appends the path in quotes; paths are not part of this
  model, so the text ends before it. The statements below refer to the text as
  \<open>message e\<close> only.
\<close>

fun call_text :: "io_call \<Rightarrow> string" where
  "call_text EnsureDir = ''mkdir''"
| "call_text (PathExists n) = ''access '' @ n"
| "call_text (ReadFile n) = ''open '' @ n"
| "call_text (WriteFile n) = ''open '' @ n"
| "call_text Readdir = ''scandir''"
| "call_text (Stat n) = ''stat '' @ n"

fun message :: "io_error \<Rightarrow> string" where
  "message (ENOENT c) = ''ENOENT: no such file or directory, '' @ call_text c"
| "message (EIO c) = ''EIO: i/o error, '' @ call_text c"

definition logged :: "io_call \<Rightarrow> filesystem \<Rightarrow> filesystem" where
  "logged c fs = fs\<lparr>calls := calls fs @ [c]\<rparr>"

definition ensureDir :: "filesystem \<Rightarrow> (io_error + unit) \<times> filesystem" where
  "ensureDir fs =
     (if faults fs EnsureDir then (Inl (EIO EnsureDir), logged EnsureDir fs)
      else (Inr (), logged EnsureDir
              (fs\<lparr>dir := Some (case dir fs of None \<Rightarrow> [] | Some es \<Rightarrow> es)\<rparr>)))"


definition readFile :: "string \<Rightarrow> filesystem \<Rightarrow> (io_error + string) \<times> filesystem" where
  "readFile name fs =
     ((if faults fs (ReadFile name) then Inl (EIO (ReadFile name))
       else (case dir fs of
               None \<Rightarrow> Inl (ENOENT (ReadFile name))
             | Some es \<Rightarrow>
                 (case map_of es name of
                    None \<Rightarrow> Inl (ENOENT (ReadFile name))
                  | Some content \<Rightarrow> Inr content))),
      logged (ReadFile name) fs)"

definition writeFile :: "string \<Rightarrow> string \<Rightarrow> filesystem \<Rightarrow> (io_error + unit) \<times> filesystem" where
  "writeFile name content fs =
     (if faults fs (WriteFile name) then (Inl (EIO (WriteFile name)), logged (WriteFile name) fs)
      else (case dir fs of
              None \<Rightarrow> (Inl (ENOENT (WriteFile name)), logged (WriteFile name) fs)
            | Some es \<Rightarrow>
                (Inr (), logged (WriteFile name)
                   (fs\<lparr>dir := Some (AList.update name content es)\<rparr>))))"

definition readdir :: "filesystem \<Rightarrow> (io_error + string list) \<times> filesystem" where
  "readdir fs =
     ((if faults fs Readdir then Inl (EIO Readdir)
       else (case dir fs of None \<Rightarrow> Inl (ENOENT Readdir) | Some es \<Rightarrow> Inr (map fst es))),
      logged Readdir fs)"

text \<open>\<open>fs.stat(path).size\<close>: the number of bytes of the file.\<close>

definition stat :: "string \<Rightarrow> filesystem \<Rightarrow> (io_error + nat) \<times> filesystem" where
  "stat name fs =
     ((if faults fs (Stat name) then Inl (EIO (Stat name))
       else (case dir fs of
               None \<Rightarrow> Inl (ENOENT (Stat name))
             | Some es \<Rightarrow>
                 (case map_of es name of
                    None \<Rightarrow> Inl (ENOENT (Stat name))
                  | Some content \<Rightarrow> Inr (length content)))),
      logged (Stat name) fs)"

section \<open>Document store (core/memory-manager.ts)\<close>

text \<open>
  The class \<open>MemoryManager\<close> with its two fields and the file system it works on.
  A \<open>try\<close> block whose \<open>catch\<close> logs and rethrows returns the error as it is.
\<close>

record MemoryManager =
  memoryBankPath :: string
  initialized :: bool
  disk :: filesystem





definition readMemoryFile :: "string \<Rightarrow> MemoryManager \<Rightarrow> (io_error + string) \<times> MemoryManager" where
  "readMemoryFile fileName mm =
     (case readFile fileName (disk mm) of (r, fs') \<Rightarrow> (r, mm\<lparr>disk := fs'\<rparr>))"

definition writeMemoryFile ::
  "string \<Rightarrow> string \<Rightarrow> MemoryManager \<Rightarrow> (io_error + unit) \<times> MemoryManager" where
  "writeMemoryFile fileName content mm =
     (case ensureDir (disk mm) of
        (Inl e, fs1) \<Rightarrow> (Inl e, mm\<lparr>disk := fs1\<rparr>)
      | (Inr u, fs1) \<Rightarrow>
          (case writeFile fileName content fs1 of (r, fs2) \<Rightarrow> (r, mm\<lparr>disk := fs2\<rparr>)))"

text \<open>\<open>String.prototype.endsWith\<close>.\<close>

definition endsWith :: "string \<Rightarrow> string \<Rightarrow> bool" where
  "endsWith s suf = (length suf \<le> length s \<and> drop (length s - length suf) s = suf)"

definition listMemoryFiles :: "MemoryManager \<Rightarrow> (io_error + string list) \<times> MemoryManager" where
  "listMemoryFiles mm =
     (case readdir (disk mm) of
        (Inl e, fs') \<Rightarrow> (Inl e, mm\<lparr>disk := fs'\<rparr>)
      | (Inr files, fs') \<Rightarrow> (Inr (filter (\<lambda>file. endsWith file ''.md'') files), mm\<lparr>disk := fs'\<rparr>))"

text \<open>
  \<open>getStats\<close>. The \<open>reduce\<close> over async callbacks awaits the running total before each
  \<open>fs.stat\<close>, so the files are visited in order and the first rejection ends the sum.
  The \<open>catch\<close> of \<open>getStats\<close> does not rethrow: it returns the object with \<open>error\<close> and
  \<open>initialized\<close>. The result type keeps \<open>Inl\<close> for an exception leaving the method.
\<close>

fun sum_sizes :: "string list \<Rightarrow> nat \<Rightarrow> filesystem \<Rightarrow> (io_error + nat) \<times> filesystem" where
  "sum_sizes [] tot fs = (Inr tot, fs)"
| "sum_sizes (file # files) tot fs =
     (case stat file fs of
        (Inl e, fs') \<Rightarrow> (Inl e, fs')
      | (Inr sz, fs') \<Rightarrow> sum_sizes files (tot + sz) fs')"

text \<open>
  The two objects that \<open>getStats\<close> returns: \<open>{path, files, totalSize, initialized}\<close> and
  \<open>{error, initialized}\<close>, the fields in this order.
\<close>

datatype stats_result =
  Stats string nat nat bool
| StatsError string bool

definition getStats_try :: "MemoryManager \<Rightarrow> (io_error + stats_result) \<times> MemoryManager" where
  "getStats_try mm =
     (case listMemoryFiles mm of
        (Inl e, mm1) \<Rightarrow> (Inl e, mm1)
      | (Inr files, mm1) \<Rightarrow>
          (case sum_sizes files 0 (disk mm1) of
             (Inl e, fs2) \<Rightarrow> (Inl e, mm1\<lparr>disk := fs2\<rparr>)
           | (Inr totalSize, fs2) \<Rightarrow>
               (Inr (Stats (memoryBankPath mm1) (length files) totalSize (initialized mm1)),
                mm1\<lparr>disk := fs2\<rparr>)))"

definition getStats :: "MemoryManager \<Rightarrow> (io_error + stats_result) \<times> MemoryManager" where
  "getStats mm =
     (case getStats_try mm of
        (Inl err, mm') \<Rightarrow> (Inr (StatsError (message err) (initialized mm')), mm')
      | (Inr r, mm') \<Rightarrow> (Inr r, mm'))"

section \<open>Context cache (core/context-manager.ts)\<close>

text \<open>
  Modelled from the spec: the class \<open>LRUCache\<close> of the package lru-cache, which the
  repository imports and does not contain. Sections 3 and 4.2 of the specification
  give its behaviour: at most one entry per key; never more than the maximum number of
  entries, the least recently used entry making room; an entry older than its
  time-to-live is absent at its next access; an entry is refreshed (time-to-live reset,
  recency updated) by every successful read or write. The entries are kept most recently
  used first, each with its value and the time of its last refresh. Nothing proved about
  \<open>getContext\<close> and \<open>updateContext\<close> below depends on whether a read resets the
  time-to-live.
\<close>

type_synonym LRUCache = "(string \<times> string \<times> int) list"

definition cache_max :: nat where
  "cache_max = 100"

definition cache_ttl :: int where
  "cache_ttl = 1000 * 60 * 15"

definition isStale :: "int \<Rightarrow> int \<Rightarrow> bool" where
  "isStale now start = (now - start > cache_ttl)"

definition lru_get :: "int \<Rightarrow> string \<Rightarrow> LRUCache \<Rightarrow> string option \<times> LRUCache" where
  "lru_get now k c =
     (case map_of c k of
        None \<Rightarrow> (None, c)
      | Some (v, start) \<Rightarrow>
          if isStale now start then (None, AList.delete k c)
          else (Some v, (k, (v, now)) # AList.delete k c))"

definition lru_set :: "int \<Rightarrow> string \<Rightarrow> string \<Rightarrow> LRUCache \<Rightarrow> LRUCache" where
  "lru_set now k v c =
     (case map_of c k of
        Some old \<Rightarrow> (k, (v, now)) # AList.delete k c
      | None \<Rightarrow> (k, (v, now)) # (if cache_max \<le> length c then butlast c else c))"

definition lru_delete :: "string \<Rightarrow> LRUCache \<Rightarrow> LRUCache" where
  "lru_delete k c = AList.delete k c"

text \<open>
  The class \<open>ContextManager\<close>. Context data has type \<open>any\<close> in the source; the store
  holds text, so the data is a string here, and the only falsy string is the empty one.
  \<open>now\<close> is the clock of the cache at the call.
\<close>

record ContextManager =
  memoryManager :: MemoryManager
  contextCache :: LRUCache

definition truthy :: "string \<Rightarrow> bool" where
  "truthy s = (s \<noteq> [])"

definition loadContext ::
  "int \<Rightarrow> string \<Rightarrow> ContextManager \<Rightarrow> (io_error + string) \<times> ContextManager" where
  "loadContext now contextKey cm =
     (case readMemoryFile contextKey (memoryManager cm) of
        (Inl e, mm') \<Rightarrow> (Inl e, cm\<lparr>memoryManager := mm'\<rparr>)
      | (Inr content, mm') \<Rightarrow>
          (Inr content,
           cm\<lparr>memoryManager := mm',
              contextCache := lru_set now contextKey content (contextCache cm)\<rparr>))"

definition getContext ::
  "int \<Rightarrow> string \<Rightarrow> ContextManager \<Rightarrow> (io_error + string) \<times> ContextManager" where
  "getContext now contextKey cm =
     (case lru_get now contextKey (contextCache cm) of
        (None, c1) \<Rightarrow> loadContext now contextKey (cm\<lparr>contextCache := c1\<rparr>)
      | (Some cachedContext, c1) \<Rightarrow>
          if truthy cachedContext then (Inr cachedContext, cm\<lparr>contextCache := c1\<rparr>)
          else loadContext now contextKey (cm\<lparr>contextCache := c1\<rparr>))"

definition updateContext ::
  "int \<Rightarrow> string \<Rightarrow> string \<Rightarrow> ContextManager \<Rightarrow> (io_error + unit) \<times> ContextManager" where
  "updateContext now contextKey contextData cm =
     (case writeMemoryFile contextKey contextData (memoryManager cm) of
        (Inl e, mm') \<Rightarrow> (Inl e, cm\<lparr>memoryManager := mm'\<rparr>)
      | (Inr u, mm') \<Rightarrow>
          (Inr (),
           cm\<lparr>memoryManager := mm',
              contextCache := lru_set now contextKey contextData (contextCache cm)\<rparr>))"

definition invalidateContext :: "string \<Rightarrow> ContextManager \<Rightarrow> ContextManager" where
  "invalidateContext contextKey cm = cm\<lparr>contextCache := lru_delete contextKey (contextCache cm)\<rparr>"

definition getAllContextKeys :: "ContextManager \<Rightarrow> (io_error + string list) \<times> ContextManager" where
  "getAllContextKeys cm =
     (case listMemoryFiles (memoryManager cm) of (r, mm') \<Rightarrow> (r, cm\<lparr>memoryManager := mm'\<rparr>))"

text \<open>
  \<open>getCompleteContext\<close>: the \<open>for\<close> loop over the listed files, with the \<open>Map\<close> being
  built as its accumulator.
\<close>

fun readAll ::
  "string list \<Rightarrow> (string \<times> string) list \<Rightarrow> MemoryManager
     \<Rightarrow> (io_error + (string \<times> string) list) \<times> MemoryManager" where
  "readAll [] context mm = (Inr context, mm)"
| "readAll (file # files) context mm =
     (case readMemoryFile file mm of
        (Inl e, mm') \<Rightarrow> (Inl e, mm')
      | (Inr content, mm') \<Rightarrow> readAll files (AList.update file content context) mm')"

definition getCompleteContext ::
  "ContextManager \<Rightarrow> (io_error + (string \<times> string) list) \<times> ContextManager" where
  "getCompleteContext cm =
     (case listMemoryFiles (memoryManager cm) of
        (Inl e, mm1) \<Rightarrow> (Inl e, cm\<lparr>memoryManager := mm1\<rparr>)
      | (Inr files, mm1) \<Rightarrow>
          (case readAll files [] mm1 of (r, mm2) \<Rightarrow> (r, cm\<lparr>memoryManager := mm2\<rparr>)))"

text \<open>The number of store reads in a log of calls.\<close>

definition store_reads :: "ContextManager \<Rightarrow> nat" where
  "store_reads cm = length (filter (\<lambda>c. case c of ReadFile n \<Rightarrow> True | _ \<Rightarrow> False)
                              (calls (disk (memoryManager cm))))"

section \<open>Notions used in the statements\<close>

text \<open>
  The names that \<open>listMemoryFiles\<close> reports for a directory with entries \<open>es\<close>, and the
  number of bytes of the entry called \<open>f\<close>.
\<close>

definition listing :: "(string \<times> string) list \<Rightarrow> string list" where
  "listing es = filter (\<lambda>file. endsWith file ''.md'') (map fst es)"

definition byte_size :: "(string \<times> string) list \<Rightarrow> string \<Rightarrow> nat" where
  "byte_size es f = (case map_of es f of None \<Rightarrow> 0 | Some content \<Rightarrow> length content)"

section \<open>Example states\<close>

text \<open>A tracker with two pending operations, started at times 10 and 12.\<close>

definition tracker_example :: "nat AsyncOperationManager" where
  "tracker_example = snd (startOperation ''op-b'' 12 (snd (startOperation ''op-a'' 10 new_manager)))"

text \<open>
  A memory bank with two documents, one of them empty, and a file that is not a
  document; nothing fails. The same bank with the directory missing, and with
  \<open>empty.md\<close> unreadable.
\<close>

definition example_disk :: filesystem where
  "example_disk =
     \<lparr>dir = Some [(''notes.md'', ''hello''), (''draft.txt'', ''abc''), (''empty.md'', [])],
      faults = (\<lambda>c. False), calls = []\<rparr>"

definition example_store :: MemoryManager where
  "example_store = \<lparr>memoryBankPath = ''./memory-bank'', initialized = True, disk = example_disk\<rparr>"

definition missing_store :: MemoryManager where
  "missing_store =
     \<lparr>memoryBankPath = ''./memory-bank'', initialized = False,
      disk = \<lparr>dir = None, faults = (\<lambda>c. False), calls = []\<rparr>\<rparr>"

definition unreadable_store :: MemoryManager where
  "unreadable_store =
     example_store\<lparr>disk := example_disk\<lparr>faults := (\<lambda>c. c = ReadFile ''empty.md'')\<rparr>\<rparr>"


definition readonly_store :: MemoryManager where
  "readonly_store =
     example_store\<lparr>disk := example_disk\<lparr>faults := (\<lambda>c. c = WriteFile ''notes.md'')\<rparr>\<rparr>"

text \<open>The example bank with the listing refused, and with the \<open>stat\<close> of \<open>empty.md\<close> refused.\<close>

definition unlistable_store :: MemoryManager where
  "unlistable_store = example_store\<lparr>disk := example_disk\<lparr>faults := (\<lambda>c. c = Readdir)\<rparr>\<rparr>"

definition unstatable_store :: MemoryManager where
  "unstatable_store =
     example_store\<lparr>disk := example_disk\<lparr>faults := (\<lambda>c. c = Stat ''empty.md'')\<rparr>\<rparr>"

text \<open>
  Context managers over these banks: with an empty cache, and with a live cache entry
  for \<open>notes.md\<close> that differs from the file (the file was edited behind the cache).
\<close>

definition example_context :: ContextManager where
  "example_context = \<lparr>memoryManager = example_store, contextCache = []\<rparr>"

definition diverged_context :: ContextManager where
  "diverged_context =
     \<lparr>memoryManager = example_store, contextCache = [(''notes.md'', (''cached copy'', 0))]\<rparr>"

definition unreadable_context :: ContextManager where
  "unreadable_context =
     \<lparr>memoryManager = unreadable_store, contextCache = [(''notes.md'', (''cached copy'', 0))]\<rparr>"

definition readonly_context :: ContextManager where
  "readonly_context =
     \<lparr>memoryManager = readonly_store, contextCache = [(''notes.md'', (''cached copy'', 0))]\<rparr>"

section \<open>The operation tracker: lemmas\<close>

lemma map_of_run_callbacks:
  "map_of (run_callbacks cbs ops) k = (if k \<in> snd ` set cbs then None else map_of ops k)"
  by (induction cbs ops rule: run_callbacks.induct) (auto simp: delete_conv')

lemma collected_when_due:
  "(due, k) \<in> set (timers m) \<Longrightarrow> due \<le> t \<Longrightarrow> map_of (operations (run_timers t m)) k = None"
  by (force simp: run_timers_def map_of_run_callbacks)

lemma unknown_stays_unknown:
  "map_of (operations m) k = None \<Longrightarrow> map_of (operations (run_timers t m)) k = None"
  by (simp add: run_timers_def map_of_run_callbacks)

lemma tracker_example_op_a:
  "map_of (operations tracker_example) ''op-a'' =
     Some \<lparr>status = Pending, startTime = 10, endTime = None, duration = None,
           result = None, error = None\<rparr>"
  by (simp add: tracker_example_def startOperation_def new_manager_def)

section \<open>The operation tracker: claims\<close>

text \<open>
  C1, as the code has it. The claim says that a record leaves \<open>pending\<close> at most once
  and that a completed or failed record is never changed again. The two methods do
  not look at the current status: for every id in the record map, whatever the status
  of its record, \<open>completeOperation\<close> leaves the record completed with the new result
  (keeping the error it had) and \<open>failOperation\<close> leaves it failed with the message of
  the new error (keeping the result it had). So a pending record goes to completed or
  failed, and a later call on a terminal record changes its status and its result or
  error again.
\<close>

theorem transitions_overwrite:
  "map_of (operations m) operationId = Some operation \<Longrightarrow>
     map_option (\<lambda>op. (status op, result op, error op))
        (getOperationResult operationId (completeOperation now operationId r m))
       = Some (Completed, Some r, error operation) \<and>
     map_option (\<lambda>op. (status op, result op, error op))
        (getOperationResult operationId (failOperation now operationId e m))
       = Some (Failed, result operation, Some (error_message e))"
  by (simp add: completeOperation_def failOperation_def getOperationResult_def update_conv')

theorem transitions_overwrite_witness:
  "map_option (\<lambda>op. (status op, result op, error op))
      (getOperationResult ''op-a'' (completeOperation 20 ''op-a'' 7 tracker_example))
     = Some (Completed, Some 7, None) \<and>
   map_option (\<lambda>op. (status op, result op, error op))
      (getOperationResult ''op-a'' (failOperation 20 ''op-a'' (ErrorObject ''boom'') tracker_example))
     = Some (Failed, None, Some ''boom'')"
  using transitions_overwrite [OF tracker_example_op_a, of 20 7 "ErrorObject ''boom''"]
  by simp

text \<open>
  The claim C1 fails: an operation completed at time 20 with result 7 and then failed at
  time 30 is reported as failed, with the error of the second call.
\<close>

theorem terminal_state_overwritten:
  "map_option status
      (getOperationStatus ''op-a'' (completeOperation 20 ''op-a'' 7 tracker_example))
     = Some Completed \<and>
   map_option (\<lambda>op. (status op, result op, error op))
      (getOperationStatus ''op-a''
         (failOperation 30 ''op-a'' (ErrorString ''late'')
            (completeOperation 20 ''op-a'' 7 tracker_example)))
     = Some (Failed, Some 7, Some ''late'')"
  by (simp add: completeOperation_def failOperation_def startOperation_def new_manager_def
      getOperationStatus_def tracker_example_def)

text \<open>
  C4, as the code has it. \<open>getOperationStatus\<close> returns the stored record whole, as
  \<open>getOperationResult\<close> does: after a completion the record it returns carries the
  result, after a failure the error message. It returns \<open>null\<close> for an id that is not in
  the map, and an id completed or failed at time \<open>now\<close> is no longer in the map once
  the timers due at \<open>now + retention\<close> have run. It has no failing branch. (The tool
  handler \<open>get_operation_status\<close> is what leaves \<open>result\<close> and \<open>error\<close> out.)
\<close>

theorem getOperationStatus_whole_record:
  "getOperationStatus operationId m = map_of (operations m) operationId \<and>
   getOperationStatus operationId m = getOperationResult operationId m \<and>
   (map_of (operations m) operationId = Some operation \<longrightarrow>
      map_option result (getOperationStatus operationId (completeOperation now operationId r m))
        = Some (Some r) \<and>
      map_option error (getOperationStatus operationId (failOperation now operationId e m))
        = Some (Some (error_message e))) \<and>
   (now + retention \<le> t \<longrightarrow>
      getOperationStatus operationId (run_timers t (completeOperation now operationId r m)) = None \<and>
      getOperationStatus operationId (run_timers t (failOperation now operationId e m)) = None)"
proof -
  have whole: "\<And>n. getOperationStatus operationId n = map_of (operations n) operationId"
    by (simp add: getOperationStatus_def split: option.split)
  have same: "getOperationStatus operationId m = getOperationResult operationId m"
    by (simp add: getOperationStatus_def getOperationResult_def)
  have fields: "map_of (operations m) operationId = Some operation \<longrightarrow>
      map_option result (getOperationStatus operationId (completeOperation now operationId r m))
        = Some (Some r) \<and>
      map_option error (getOperationStatus operationId (failOperation now operationId e m))
        = Some (Some (error_message e))"
    by (simp add: whole completeOperation_def failOperation_def update_conv')
  have gone: "map_of (operations (run_timers t (completeOperation now operationId r m))) operationId = None \<and>
      map_of (operations (run_timers t (failOperation now operationId e m))) operationId = None"
    if due: "now + retention \<le> t"
  proof (cases "map_of (operations m) operationId")
    case None
    then show ?thesis
      by (simp add: completeOperation_def failOperation_def unknown_stays_unknown)
  next
    case (Some operation')
    have "(now + retention, operationId) \<in> set (timers (completeOperation now operationId r m))"
      and "(now + retention, operationId) \<in> set (timers (failOperation now operationId e m))"
      using Some by (simp_all add: completeOperation_def failOperation_def)
    then show ?thesis
      using due by (simp add: collected_when_due)
  qed
  show ?thesis
    using same fields gone by (simp add: whole)
qed

theorem getOperationStatus_whole_record_witness:
  "getOperationStatus ''op-a'' tracker_example = map_of (operations tracker_example) ''op-a'' \<and>
   getOperationStatus ''op-a'' tracker_example = getOperationResult ''op-a'' tracker_example \<and>
   map_option result
      (getOperationStatus ''op-a'' (completeOperation 20 ''op-a'' 7 tracker_example))
     = Some (Some 7) \<and>
   map_option error
      (getOperationStatus ''op-a'' (failOperation 20 ''op-a'' (ErrorString ''boom'') tracker_example))
     = Some (Some (error_message (ErrorString ''boom''))) \<and>
   (20::int) + retention \<le> 3600020 \<and>
   getOperationStatus ''op-a'' (run_timers 3600020 (completeOperation 20 ''op-a'' 7 tracker_example))
     = None \<and>
   getOperationStatus ''op-a''
      (run_timers 3600020 (failOperation 20 ''op-a'' (ErrorString ''boom'') tracker_example))
     = None"
proof -
  have due: "(20::int) + retention \<le> 3600020"
    by (simp add: retention_def)
  show ?thesis
    using getOperationStatus_whole_record
      [where operationId = "''op-a''" and m = tracker_example and now = 20 and r = 7
         and e = "ErrorString ''boom''" and t = 3600020]
      tracker_example_op_a due
    by blast
qed

text \<open>
  The claim C4 fails: the record that \<open>getOperationStatus\<close> returns for a completed
  operation holds the result.
\<close>

theorem status_record_holds_result:
  "getOperationStatus ''op-a'' (completeOperation 20 ''op-a'' 7 tracker_example) =
     Some \<lparr>status = Completed, startTime = 10, endTime = Some 20, duration = Some 10,
           result = Some 7, error = None\<rparr>"
  by (simp add: completeOperation_def startOperation_def new_manager_def
      getOperationStatus_def tracker_example_def)

text \<open>
  C8. For every id that is not in the record map, \<open>completeOperation\<close> and
  \<open>failOperation\<close> return the manager as it was (the record map and the timers), and
  \<open>getOperationStatus\<close> and \<open>getOperationResult\<close> return \<open>null\<close>. None of the four has a
  failing branch.
\<close>

theorem unknown_id_safe:
  "map_of (operations m) operationId = None \<Longrightarrow>
     completeOperation now operationId x m = m \<and>
     failOperation now operationId e m = m \<and>
     getOperationStatus operationId m = None \<and>
     getOperationResult operationId m = None"
  by (simp add: completeOperation_def failOperation_def getOperationStatus_def
      getOperationResult_def)

theorem unknown_id_safe_witness:
  "map_of (operations tracker_example) ''nonexistent'' = None \<and>
   completeOperation 20 ''nonexistent'' 7 tracker_example = tracker_example \<and>
   failOperation 20 ''nonexistent'' (ErrorString ''boom'') tracker_example = tracker_example \<and>
   getOperationStatus ''nonexistent'' tracker_example = None \<and>
   getOperationResult ''nonexistent'' tracker_example = None"
proof -
  have unknown: "map_of (operations tracker_example) ''nonexistent'' = None"
    by (simp add: tracker_example_def startOperation_def new_manager_def)
  show ?thesis
    using unknown unknown_id_safe [OF unknown, of 20 7 "ErrorString ''boom''"] by simp
qed

text \<open>
  C10. For every id in the record map, the record that \<open>completeOperation\<close> or
  \<open>failOperation\<close> stores keeps the start time it had, has the time of the call as its
  end time and their difference as its duration; the record of every other id is the
  one it was.
\<close>

theorem terminal_frame:
  "map_of (operations m) operationId = Some operation \<Longrightarrow>
     (\<exists>op'. map_of (operations (completeOperation now operationId r m)) operationId = Some op' \<and>
        startTime op' = startTime operation \<and> endTime op' = Some now \<and>
        duration op' = Some (now - startTime operation)) \<and>
     (\<exists>op'. map_of (operations (failOperation now operationId e m)) operationId = Some op' \<and>
        startTime op' = startTime operation \<and> endTime op' = Some now \<and>
        duration op' = Some (now - startTime operation)) \<and>
     (\<forall>other. other \<noteq> operationId \<longrightarrow>
        map_of (operations (completeOperation now operationId r m)) other
          = map_of (operations m) other \<and>
        map_of (operations (failOperation now operationId e m)) other
          = map_of (operations m) other)"
  by (simp add: completeOperation_def failOperation_def update_conv')

theorem terminal_frame_witness:
  "map_option (\<lambda>op. (startTime op, endTime op, duration op))
      (map_of (operations (completeOperation 25 ''op-a'' 7 tracker_example)) ''op-a'')
     = Some (10, Some 25, Some 15) \<and>
   map_option (\<lambda>op. (startTime op, endTime op, duration op))
      (map_of (operations (failOperation 25 ''op-a'' (ErrorString ''boom'') tracker_example)) ''op-a'')
     = Some (10, Some 25, Some 15) \<and>
   ''op-b'' \<noteq> ''op-a'' \<and>
   map_of (operations (completeOperation 25 ''op-a'' 7 tracker_example)) ''op-b''
     = map_of (operations tracker_example) ''op-b'' \<and>
   map_of (operations (failOperation 25 ''op-a'' (ErrorString ''boom'') tracker_example)) ''op-b''
     = map_of (operations tracker_example) ''op-b''"
  using terminal_frame [OF tracker_example_op_a, of 25 7 "ErrorString ''boom''"]
  by auto

section \<open>The file system: lemmas\<close>

lemma logged_simps [simp]:
  "dir (logged c fs) = dir fs" "faults (logged c fs) = faults fs"
  "calls (logged c fs) = calls fs @ [c]"
  by (simp_all add: logged_def)

lemma snd_stat [simp]: "snd (stat f fs) = logged (Stat f) fs"
  by (simp add: stat_def)

lemma fst_stat:
  "fst (stat f fs) =
     (if faults fs (Stat f) then Inl (EIO (Stat f))
      else case dir fs of None \<Rightarrow> Inl (ENOENT (Stat f))
           | Some es \<Rightarrow> (case map_of es f of None \<Rightarrow> Inl (ENOENT (Stat f))
                          | Some content \<Rightarrow> Inr (length content)))"
  by (simp add: stat_def)

lemma fst_stat_logged [simp]: "fst (stat g (logged c fs)) = fst (stat g fs)"
  by (simp add: fst_stat)

lemma fst_readFile_logged [simp]: "fst (readFile f (logged c fs)) = fst (readFile f fs)"
  by (simp add: readFile_def)

section \<open>The document store: lemmas\<close>

lemma listMemoryFiles_eq:
  "listMemoryFiles mm =
     ((if faults (disk mm) Readdir then Inl (EIO Readdir)
       else case dir (disk mm) of None \<Rightarrow> Inl (ENOENT Readdir)
            | Some es \<Rightarrow> Inr (listing es)),
      mm\<lparr>disk := logged Readdir (disk mm)\<rparr>)"
  by (simp add: listMemoryFiles_def readdir_def listing_def split: option.splits)

lemma readMemoryFile_eq:
  "readMemoryFile f mm = (fst (readFile f (disk mm)), mm\<lparr>disk := logged (ReadFile f) (disk mm)\<rparr>)"
  by (simp add: readMemoryFile_def readFile_def)

text \<open>The sum of the sizes: every \<open>stat\<close> succeeds, or one of them fails.\<close>

lemma sum_sizes_ok:
  "dir fs = Some es \<Longrightarrow> \<forall>f\<in>set files. \<not> faults fs (Stat f) \<and> map_of es f \<noteq> None \<Longrightarrow>
   fst (sum_sizes files tot fs) = Inr (tot + sum_list (map (byte_size es) files))"
proof (induction files arbitrary: tot fs)
  case Nil
  then show ?case by simp
next
  case (Cons f files)
  obtain content where c: "map_of es f = Some content"
    using Cons.prems by auto
  have st: "stat f fs = (Inr (length content), logged (Stat f) fs)"
    using Cons.prems c by (simp add: stat_def)
  have "fst (sum_sizes files (tot + length content) (logged (Stat f) fs)) =
          Inr (tot + length content + sum_list (map (byte_size es) files))"
    using Cons.prems by (intro Cons.IH) simp_all
  moreover have "byte_size es f = length content"
    using c by (simp add: byte_size_def)
  ultimately show ?case
    using st by simp
qed

lemma sum_sizes_fail:
  "\<exists>f\<in>set files. isl (fst (stat f fs)) \<Longrightarrow> isl (fst (sum_sizes files tot fs))"
proof (induction files arbitrary: tot fs)
  case Nil
  then show ?case by simp
next
  case (Cons f files)
  show ?case
  proof (cases "fst (stat f fs)")
    case (Inl e)
    then show ?thesis by (cases "stat f fs") simp
  next
    case (Inr n)
    then have rest: "\<exists>g\<in>set files. isl (fst (stat g fs))"
      using Cons.prems by auto
    have "\<exists>g\<in>set files. isl (fst (stat g (logged (Stat f) fs)))"
      using rest by simp
    then have "isl (fst (sum_sizes files (tot + n) (logged (Stat f) fs)))"
      by (rule Cons.IH)
    then show ?thesis
      using Inr by (cases "stat f fs") (use snd_stat [of f fs] in auto)
  qed
qed

lemma getStats_total: "\<exists>r. fst (getStats mm) = Inr r"
  by (simp add: getStats_def split: prod.splits sum.splits)

lemma getStats_initialized: "fst (getStats mm) = Inr (StatsError msg b) \<Longrightarrow> b = initialized mm"
  by (auto simp: getStats_def getStats_try_def listMemoryFiles_eq
      split: prod.splits sum.splits if_splits option.splits)

lemma sum_sizes_Inl:
  "fst (sum_sizes files tot fs) = Inl e \<Longrightarrow> \<exists>f\<in>set files. fst (stat f fs) = Inl e"
proof (induction files arbitrary: tot fs)
  case Nil
  then show ?case by simp
next
  case (Cons f files)
  show ?case
  proof (cases "fst (stat f fs)")
    case (Inl e')
    then show ?thesis using Cons.prems by (cases "stat f fs") simp
  next
    case (Inr n)
    then have "fst (sum_sizes files (tot + n) (logged (Stat f) fs)) = Inl e"
      using Cons.prems by (cases "stat f fs") (use snd_stat [of f fs] in auto)
    then have "\<exists>g\<in>set files. fst (stat g (logged (Stat f) fs)) = Inl e"
      by (rule Cons.IH)
    then show ?thesis by simp
  qed
qed

lemma initialized_getStats_try: "initialized (snd (getStats_try mm)) = initialized mm"
  by (auto simp: getStats_try_def listMemoryFiles_eq split: prod.splits sum.splits)

text \<open>The \<open>catch\<close> of \<open>getStats\<close>: the error of the \<open>try\<close> block becomes the \<open>error\<close> field.\<close>

lemma getStats_catch:
  "fst (getStats_try mm) = Inl e \<Longrightarrow>
   fst (getStats mm) = Inr (StatsError (message e) (initialized mm))"
  using initialized_getStats_try [of mm]
  by (cases "getStats_try mm") (simp add: getStats_def)

text \<open>Which error leaves the \<open>try\<close> block.\<close>

lemma getStats_try_unlistable:
  "faults (disk mm) Readdir \<Longrightarrow> fst (getStats_try mm) = Inl (EIO Readdir)"
  by (simp add: getStats_try_def listMemoryFiles_eq)

lemma getStats_try_missing:
  "\<not> faults (disk mm) Readdir \<Longrightarrow> dir (disk mm) = None \<Longrightarrow>
   fst (getStats_try mm) = Inl (ENOENT Readdir)"
  by (simp add: getStats_try_def listMemoryFiles_eq)

lemma getStats_try_unstatable:
  assumes es: "dir (disk mm) = Some es" and rd: "\<not> faults (disk mm) Readdir"
    and bad: "\<exists>f\<in>set (listing es). faults (disk mm) (Stat f)"
  shows "\<exists>f\<in>set (listing es). faults (disk mm) (Stat f) \<and>
           fst (getStats_try mm) = Inl (EIO (Stat f))"
proof -
  let ?fs1 = "logged Readdir (disk mm)"
  have body: "fst (getStats_try mm) =
      (case fst (sum_sizes (listing es) 0 ?fs1) of
         Inl e \<Rightarrow> Inl e
       | Inr totalSize \<Rightarrow>
           Inr (Stats (memoryBankPath mm) (length (listing es)) totalSize (initialized mm)))"
    using es rd
    by (cases "sum_sizes (listing es) 0 ?fs1")
      (simp add: getStats_try_def listMemoryFiles_eq split: sum.splits)
  have "\<exists>f\<in>set (listing es). isl (fst (stat f ?fs1))"
    using bad by (auto simp: fst_stat)
  then have "isl (fst (sum_sizes (listing es) 0 ?fs1))"
    by (rule sum_sizes_fail)
  then obtain e where e: "fst (sum_sizes (listing es) 0 ?fs1) = Inl e"
    by (auto simp: isl_def)
  then obtain f where f: "f \<in> set (listing es)" and st: "fst (stat f ?fs1) = Inl e"
    using sum_sizes_Inl by blast
  have "map_of es f \<noteq> None"
    using f by (auto simp: listing_def map_of_eq_None_iff)
  then have "faults (disk mm) (Stat f) \<and> e = EIO (Stat f)"
    using st es by (auto simp: fst_stat split: if_splits)
  then show ?thesis
    using f e body by auto
qed





section \<open>The document store: claims\<close>



text \<open>
  C9. \<open>getStats\<close> never throws: it always returns a result. When the directory exists
  and neither listing it nor the \<open>stat\<close> of a listed document is refused, the result
  holds the path, the number of listed documents, the sum of their byte sizes and the
  \<open>initialized\<close> flag. Whatever error leaves the \<open>try\<close> block, the result is the degraded
  one: the message of that error and the \<open>initialized\<close> flag. The error is the one of the
  failing call: of the listing when the listing is refused or the directory is missing,
  and of the \<open>stat\<close> of a listed document when such a \<open>stat\<close> is refused.
\<close>

theorem getStats_never_throws:
  "(\<exists>r. fst (getStats mm) = Inr r) \<and>
   (\<forall>es. dir (disk mm) = Some es \<and> \<not> faults (disk mm) Readdir \<and>
         (\<forall>f\<in>set (listing es). \<not> faults (disk mm) (Stat f)) \<longrightarrow>
      fst (listMemoryFiles mm) = Inr (listing es) \<and>
      fst (getStats mm) =
        Inr (Stats (memoryBankPath mm) (length (listing es))
               (sum_list (map (byte_size es) (listing es))) (initialized mm))) \<and>
   (\<forall>e. fst (getStats_try mm) = Inl e \<longrightarrow>
      fst (getStats mm) = Inr (StatsError (message e) (initialized mm))) \<and>
   (faults (disk mm) Readdir \<longrightarrow>
      fst (getStats mm) = Inr (StatsError (message (EIO Readdir)) (initialized mm))) \<and>
   (\<not> faults (disk mm) Readdir \<and> dir (disk mm) = None \<longrightarrow>
      fst (getStats mm) = Inr (StatsError (message (ENOENT Readdir)) (initialized mm))) \<and>
   (\<forall>es. dir (disk mm) = Some es \<and> \<not> faults (disk mm) Readdir \<and>
         (\<exists>f\<in>set (listing es). faults (disk mm) (Stat f)) \<longrightarrow>
      (\<exists>f\<in>set (listing es). faults (disk mm) (Stat f) \<and>
         fst (getStats mm) = Inr (StatsError (message (EIO (Stat f))) (initialized mm))))"
proof -
  have returns: "\<exists>r. fst (getStats mm) = Inr r" by (rule getStats_total)
  have full: "fst (listMemoryFiles mm) = Inr (listing es) \<and>
      fst (getStats mm) =
        Inr (Stats (memoryBankPath mm) (length (listing es))
               (sum_list (map (byte_size es) (listing es))) (initialized mm))"
    if a: "dir (disk mm) = Some es \<and> \<not> faults (disk mm) Readdir \<and>
         (\<forall>f\<in>set (listing es). \<not> faults (disk mm) (Stat f))" for es
  proof -
    have listed: "fst (listMemoryFiles mm) = Inr (listing es)"
      using a by (simp add: listMemoryFiles_eq)
    have present: "\<forall>f\<in>set (listing es). map_of es f \<noteq> None"
      by (auto simp: listing_def map_of_eq_None_iff)
    have "fst (sum_sizes (listing es) 0 (logged Readdir (disk mm))) =
            Inr (0 + sum_list (map (byte_size es) (listing es)))"
      using a present by (intro sum_sizes_ok) simp_all
    then have "fst (getStats mm) =
          Inr (Stats (memoryBankPath mm) (length (listing es))
                 (sum_list (map (byte_size es) (listing es))) (initialized mm))"
      using a
      by (cases "sum_sizes (listing es) 0 (logged Readdir (disk mm))")
        (simp add: getStats_def getStats_try_def listMemoryFiles_eq)
    then show ?thesis using listed by simp
  qed
  have caught: "\<forall>e. fst (getStats_try mm) = Inl e \<longrightarrow>
      fst (getStats mm) = Inr (StatsError (message e) (initialized mm))"
    using getStats_catch by blast
  have unlistable: "fst (getStats mm) = Inr (StatsError (message (EIO Readdir)) (initialized mm))"
    if "faults (disk mm) Readdir"
    using that by (intro getStats_catch getStats_try_unlistable)
  have missing: "fst (getStats mm) = Inr (StatsError (message (ENOENT Readdir)) (initialized mm))"
    if "\<not> faults (disk mm) Readdir \<and> dir (disk mm) = None"
    using that by (intro getStats_catch getStats_try_missing) simp_all
  have unstatable: "\<exists>f\<in>set (listing es). faults (disk mm) (Stat f) \<and>
         fst (getStats mm) = Inr (StatsError (message (EIO (Stat f))) (initialized mm))"
    if a: "dir (disk mm) = Some es \<and> \<not> faults (disk mm) Readdir \<and>
         (\<exists>f\<in>set (listing es). faults (disk mm) (Stat f))" for es
  proof -
    obtain f where "f \<in> set (listing es)" and "faults (disk mm) (Stat f)"
      and "fst (getStats_try mm) = Inl (EIO (Stat f))"
      using getStats_try_unstatable [of mm es] a by blast
    then show ?thesis
      using getStats_catch [of mm "EIO (Stat f)"] by blast
  qed
  show ?thesis
    using returns full caught unlistable missing unstatable by blast
qed

theorem getStats_never_throws_witness:
  "fst (getStats example_store) = Inr (Stats ''./memory-bank'' 2 5 True) \<and>
   fst (getStats_try missing_store) = Inl (ENOENT Readdir) \<and>
   fst (getStats missing_store) = Inr (StatsError (message (ENOENT Readdir)) False) \<and>
   faults (disk unlistable_store) Readdir \<and>
   fst (getStats unlistable_store) = Inr (StatsError (message (EIO Readdir)) True) \<and>
   faults (disk unstatable_store) (Stat ''empty.md'') \<and>
   fst (getStats unstatable_store) = Inr (StatsError (message (EIO (Stat ''empty.md''))) True)"
proof -
  let ?es = "[(''notes.md'', ''hello''), (''draft.txt'', ''abc''), (''empty.md'', [])]"
  have names: "listing ?es = [''notes.md'', ''empty.md'']"
    by (simp add: listing_def endsWith_def)
  have ok: "dir (disk example_store) = Some ?es \<and> \<not> faults (disk example_store) Readdir \<and>
      (\<forall>f\<in>set (listing ?es). \<not> faults (disk example_store) (Stat f))"
    by (simp add: example_store_def example_disk_def)
  have "fst (getStats example_store) =
      Inr (Stats (memoryBankPath example_store) (length (listing ?es))
             (sum_list (map (byte_size ?es) (listing ?es))) (initialized example_store))"
    using getStats_never_throws [of example_store] ok by blast
  then have w1: "fst (getStats example_store) = Inr (Stats ''./memory-bank'' 2 5 True)"
    by (simp add: names byte_size_def example_store_def)
  have w2: "fst (getStats_try missing_store) = Inl (ENOENT Readdir)"
    by (simp add: getStats_try_def listMemoryFiles_def readdir_def missing_store_def)
  have "fst (getStats missing_store) =
      Inr (StatsError (message (ENOENT Readdir)) (initialized missing_store))"
    using getStats_never_throws [of missing_store] w2 by blast
  then have w3: "fst (getStats missing_store) = Inr (StatsError (message (ENOENT Readdir)) False)"
    by (simp add: missing_store_def)
  have w4: "faults (disk unlistable_store) Readdir"
    by (simp add: unlistable_store_def)
  have "fst (getStats unlistable_store) =
      Inr (StatsError (message (EIO Readdir)) (initialized unlistable_store))"
    using getStats_never_throws [of unlistable_store] w4 by blast
  then have w5: "fst (getStats unlistable_store) = Inr (StatsError (message (EIO Readdir)) True)"
    by (simp add: unlistable_store_def example_store_def)
  have w6: "faults (disk unstatable_store) (Stat ''empty.md'')"
    by (simp add: unstatable_store_def)
  have bad: "dir (disk unstatable_store) = Some ?es \<and> \<not> faults (disk unstatable_store) Readdir \<and>
      (\<exists>f\<in>set (listing ?es). faults (disk unstatable_store) (Stat f))"
    by (simp add: names unstatable_store_def example_store_def example_disk_def)
  have "\<exists>f\<in>set (listing ?es). faults (disk unstatable_store) (Stat f) \<and>
      fst (getStats unstatable_store) =
        Inr (StatsError (message (EIO (Stat f))) (initialized unstatable_store))"
    using getStats_never_throws [of unstatable_store] bad by blast
  then obtain f where "faults (disk unstatable_store) (Stat f)"
    and r: "fst (getStats unstatable_store) =
        Inr (StatsError (message (EIO (Stat f))) (initialized unstatable_store))"
    by blast
  then have "f = ''empty.md''"
    by (simp add: unstatable_store_def)
  then have w7: "fst (getStats unstatable_store) =
      Inr (StatsError (message (EIO (Stat ''empty.md''))) True)"
    using r by (simp add: unstatable_store_def example_store_def)
  show ?thesis
    using w1 w2 w3 w4 w5 w6 w7 by blast
qed

section \<open>The context cache: lemmas\<close>

lemma map_of_lru_set: "map_of (lru_set now k v c) k = Some (v, now)"
  by (simp add: lru_set_def split: option.split)

lemma lru_get_live:
  "map_of c k = Some (v, start) \<Longrightarrow> \<not> isStale now start \<Longrightarrow>
   lru_get now k c = (Some v, (k, (v, now)) # AList.delete k c)"
  by (simp add: lru_get_def)

text \<open>
  A hit: a live entry with a truthy value is returned, and only the cache changes (the
  entry is refreshed), so the store is not touched.
\<close>

lemma getContext_hit:
  "map_of (contextCache cm) k = Some (v, start) \<Longrightarrow> \<not> isStale now start \<Longrightarrow> truthy v \<Longrightarrow>
   getContext now k cm =
     (Inr v, cm\<lparr>contextCache := (k, (v, now)) # AList.delete k (contextCache cm)\<rparr>)"
  by (simp add: getContext_def lru_get_live)

text \<open>
  A live entry whose value is the empty string is not a hit: \<open>getContext\<close> reads the
  store.
\<close>

lemma getContext_empty_entry:
  "map_of (contextCache cm) k = Some ([], start) \<Longrightarrow> \<not> isStale now start \<Longrightarrow>
   calls (disk (memoryManager (snd (getContext now k cm)))) =
     calls (disk (memoryManager cm)) @ [ReadFile k]"
  by (simp add: getContext_def lru_get_live truthy_def loadContext_def readMemoryFile_eq
      split: sum.splits)

text \<open>
  For a document that is not empty: a key with no cache entry costs one store read, and
  a second \<open>getContext\<close> within the time-to-live costs none.
\<close>

lemma getContext_miss_then_hit:
  assumes "map_of (contextCache cm) k = None"
    and "fst (readFile k (disk (memoryManager cm))) = Inr content"
    and "truthy content" and "now' - now \<le> cache_ttl"
  shows "fst (getContext now k cm) = Inr content \<and>
         store_reads (snd (getContext now k cm)) = store_reads cm + 1 \<and>
         fst (getContext now' k (snd (getContext now k cm))) = Inr content \<and>
         store_reads (snd (getContext now' k (snd (getContext now k cm)))) = store_reads cm + 1"
proof -
  let ?mm1 = "(memoryManager cm)\<lparr>disk := logged (ReadFile k) (disk (memoryManager cm))\<rparr>"
  let ?cm1 = "cm\<lparr>memoryManager := ?mm1, contextCache := lru_set now k content (contextCache cm)\<rparr>"
  have first: "getContext now k cm = (Inr content, ?cm1)"
    using assms(1,2) by (simp add: getContext_def lru_get_def loadContext_def readMemoryFile_eq)
  have "map_of (contextCache ?cm1) k = Some (content, now)"
    by (simp add: map_of_lru_set)
  moreover have "\<not> isStale now' now" using assms(4) by (simp add: isStale_def)
  ultimately have second: "getContext now' k ?cm1 =
      (Inr content, ?cm1\<lparr>contextCache := (k, (content, now')) # AList.delete k (contextCache ?cm1)\<rparr>)"
    using assms(3) by (rule getContext_hit)
  show ?thesis
    using first second by (simp add: store_reads_def)
qed

text \<open>
  For a value that is not empty: after a successful \<open>updateContext\<close>, a \<open>getContext\<close>
  within the time-to-live returns the value and leaves the store as it is.
\<close>

lemma update_then_get_truthy:
  assumes "fst (updateContext now k v cm) = Inr ()" and "truthy v" and "now' - now \<le> cache_ttl"
  shows "fst (getContext now' k (snd (updateContext now k v cm))) = Inr v \<and>
         memoryManager (snd (getContext now' k (snd (updateContext now k v cm)))) =
           memoryManager (snd (updateContext now k v cm))"
proof -
  let ?cm1 = "snd (updateContext now k v cm)"
  have "map_of (contextCache ?cm1) k = Some (v, now)"
    using assms(1)
    by (auto simp: updateContext_def map_of_lru_set split: prod.splits sum.splits)
  moreover have "\<not> isStale now' now" using assms(3) by (simp add: isStale_def)
  ultimately have "getContext now' k ?cm1 =
      (Inr v, ?cm1\<lparr>contextCache := (k, (v, now')) # AList.delete k (contextCache ?cm1)\<rparr>)"
    using assms(2) by (rule getContext_hit)
  then show ?thesis by simp
qed

lemma writeMemoryFile_stored:
  "fst (writeMemoryFile k v mm) = Inr () \<Longrightarrow>
     \<exists>es. dir (disk (snd (writeMemoryFile k v mm))) = Some es \<and> map_of es k = Some v"
  by (auto simp: writeMemoryFile_def ensureDir_def writeFile_def update_conv'
      split: if_splits option.splits)

text \<open>The loop of \<open>getCompleteContext\<close>: how it fails and what it returns.\<close>

lemma readAll_Inl:
  "fst (readAll files ctx mm) = Inl e \<Longrightarrow> \<exists>f\<in>set files. fst (readFile f (disk mm)) = Inl e"
proof (induction files arbitrary: ctx mm)
  case Nil
  then show ?case by simp
next
  case (Cons f files)
  show ?case
  proof (cases "fst (readFile f (disk mm))")
    case (Inl e')
    then show ?thesis using Cons.prems by (simp add: readMemoryFile_eq)
  next
    case (Inr content)
    let ?mm1 = "mm\<lparr>disk := logged (ReadFile f) (disk mm)\<rparr>"
    have "fst (readAll files (AList.update f content ctx) ?mm1) = Inl e"
      using Cons.prems Inr by (simp add: readMemoryFile_eq)
    then have "\<exists>g\<in>set files. fst (readFile g (disk ?mm1)) = Inl e"
      by (rule Cons.IH)
    then show ?thesis by simp
  qed
qed

lemma readAll_Inr:
  "fst (readAll files ctx mm) = Inr ctx' \<Longrightarrow>
     (\<forall>f\<in>set files. \<exists>content. fst (readFile f (disk mm)) = Inr content \<and>
                                map_of ctx' f = Some content) \<and>
     (\<forall>f. f \<notin> set files \<longrightarrow> map_of ctx' f = map_of ctx f) \<and>
     calls (disk (snd (readAll files ctx mm))) = calls (disk mm) @ map ReadFile files"
proof (induction files arbitrary: ctx mm)
  case Nil
  then show ?case by simp
next
  case (Cons f files)
  show ?case
  proof (cases "fst (readFile f (disk mm))")
    case (Inl e')
    then show ?thesis using Cons.prems by (simp add: readMemoryFile_eq)
  next
    case (Inr content)
    let ?mm1 = "mm\<lparr>disk := logged (ReadFile f) (disk mm)\<rparr>"
    let ?ctx1 = "AList.update f content ctx"
    have step: "readAll (f # files) ctx mm = readAll files ?ctx1 ?mm1"
      using Inr by (simp add: readMemoryFile_eq)
    then have "fst (readAll files ?ctx1 ?mm1) = Inr ctx'"
      using Cons.prems by simp
    from Cons.IH [OF this]
    have ih: "\<forall>g\<in>set files. \<exists>c. fst (readFile g (disk mm)) = Inr c \<and> map_of ctx' g = Some c"
      and out: "\<forall>g. g \<notin> set files \<longrightarrow> map_of ctx' g = map_of ?ctx1 g"
      and log: "calls (disk (snd (readAll files ?ctx1 ?mm1))) = calls (disk ?mm1) @ map ReadFile files"
      by simp_all
    have "\<exists>c. fst (readFile f (disk mm)) = Inr c \<and> map_of ctx' f = Some c"
    proof (cases "f \<in> set files")
      case True
      then show ?thesis using ih by blast
    next
      case False
      then have "map_of ctx' f = Some content" using out by (simp add: update_conv')
      then show ?thesis using Inr by simp
    qed
    moreover have "\<forall>g. g \<notin> set (f # files) \<longrightarrow> map_of ctx' g = map_of ctx g"
      using out by (simp add: update_conv')
    ultimately show ?thesis
      using ih log step by simp
  qed
qed

lemma getCompleteContext_eq:
  "getCompleteContext cm =
     (case fst (listMemoryFiles (memoryManager cm)) of
        Inl e \<Rightarrow> (Inl e, cm\<lparr>memoryManager := snd (listMemoryFiles (memoryManager cm))\<rparr>)
      | Inr files \<Rightarrow>
          (fst (readAll files [] (snd (listMemoryFiles (memoryManager cm)))),
           cm\<lparr>memoryManager := snd (readAll files [] (snd (listMemoryFiles (memoryManager cm))))\<rparr>))"
  by (simp add: getCompleteContext_def split: prod.splits sum.splits)

section \<open>The context cache: claims\<close>

text \<open>
  C2, at the input where the code leaves the claim. The document \<open>empty.md\<close> is empty.
  The first \<open>getContext\<close> reads the store once and caches the empty string; the second,
  one millisecond later, finds the live entry, takes it for a miss because the empty
  string is falsy, and reads the store again: two store reads where the claim has one.
\<close>

theorem empty_document_read_again:
  "fst (getContext 0 ''empty.md'' example_context) = Inr [] \<and>
   map_of (contextCache (snd (getContext 0 ''empty.md'' example_context))) ''empty.md''
     = Some ([], 0) \<and>
   store_reads (snd (getContext 0 ''empty.md'' example_context)) = 1 \<and>
   store_reads (snd (getContext 1 ''empty.md'' (snd (getContext 0 ''empty.md'' example_context))))
     = 2"
  by (simp add: getContext_def loadContext_def readMemoryFile_def readFile_def lru_get_def
      lru_set_def isStale_def cache_ttl_def cache_max_def truthy_def logged_def store_reads_def
      example_context_def example_store_def example_disk_def)

text \<open>
  C3, as the code has it. \<open>getCompleteContext\<close> does not consult the cache: it leaves
  the cache as it is, and for every name that \<open>listMemoryFiles\<close> returns it reads the
  document from the store, one store read for each name in the order of the listing,
  cached or not. When the listing fails, the aggregate fails with that error. When every
  read succeeds, the result maps exactly the listed names, each to the content the
  store holds. When the read of a listed document fails, the aggregate fails with the
  error of such a read and returns no mapping.
\<close>

theorem getCompleteContext_reads_store:
  "contextCache (snd (getCompleteContext cm)) = contextCache cm \<and>
   (\<forall>e. fst (listMemoryFiles (memoryManager cm)) = Inl e \<longrightarrow>
      fst (getCompleteContext cm) = Inl e) \<and>
   (\<forall>files. fst (listMemoryFiles (memoryManager cm)) = Inr files \<longrightarrow>
      (\<forall>ctx. fst (getCompleteContext cm) = Inr ctx \<longrightarrow>
         (\<forall>f\<in>set files. \<exists>content.
            fst (readFile f (disk (memoryManager cm))) = Inr content \<and>
            map_of ctx f = Some content) \<and>
         (\<forall>f. f \<notin> set files \<longrightarrow> map_of ctx f = None) \<and>
         calls (disk (memoryManager (snd (getCompleteContext cm)))) =
           calls (disk (memoryManager cm)) @ Readdir # map ReadFile files) \<and>
      ((\<exists>f\<in>set files. isl (fst (readFile f (disk (memoryManager cm))))) \<longrightarrow>
         (\<exists>f\<in>set files. \<exists>e. fst (readFile f (disk (memoryManager cm))) = Inl e \<and>
            fst (getCompleteContext cm) = Inl e)) \<and>
      ((\<forall>f\<in>set files. \<not> isl (fst (readFile f (disk (memoryManager cm))))) \<longrightarrow>
         (\<exists>ctx. fst (getCompleteContext cm) = Inr ctx)))"
proof -
  have cache: "contextCache (snd (getCompleteContext cm)) = contextCache cm"
    by (simp add: getCompleteContext_eq split: sum.splits)
  have listfail: "\<forall>e. fst (listMemoryFiles (memoryManager cm)) = Inl e \<longrightarrow>
      fst (getCompleteContext cm) = Inl e"
    by (simp add: getCompleteContext_eq)
  have main:
    "(\<forall>ctx. fst (getCompleteContext cm) = Inr ctx \<longrightarrow>
         (\<forall>f\<in>set files. \<exists>content.
            fst (readFile f (disk (memoryManager cm))) = Inr content \<and>
            map_of ctx f = Some content) \<and>
         (\<forall>f. f \<notin> set files \<longrightarrow> map_of ctx f = None) \<and>
         calls (disk (memoryManager (snd (getCompleteContext cm)))) =
           calls (disk (memoryManager cm)) @ Readdir # map ReadFile files) \<and>
      ((\<exists>f\<in>set files. isl (fst (readFile f (disk (memoryManager cm))))) \<longrightarrow>
         (\<exists>f\<in>set files. \<exists>e. fst (readFile f (disk (memoryManager cm))) = Inl e \<and>
            fst (getCompleteContext cm) = Inl e)) \<and>
      ((\<forall>f\<in>set files. \<not> isl (fst (readFile f (disk (memoryManager cm))))) \<longrightarrow>
         (\<exists>ctx. fst (getCompleteContext cm) = Inr ctx))"
    if listed: "fst (listMemoryFiles (memoryManager cm)) = Inr files" for files
  proof -
    let ?mm1 = "snd (listMemoryFiles (memoryManager cm))"
    have mm1: "?mm1 = (memoryManager cm)\<lparr>disk := logged Readdir (disk (memoryManager cm))\<rparr>"
      by (simp add: listMemoryFiles_eq)
    have res: "fst (getCompleteContext cm) = fst (readAll files [] ?mm1)"
      and st: "memoryManager (snd (getCompleteContext cm)) = snd (readAll files [] ?mm1)"
      using listed by (simp_all add: getCompleteContext_eq)
    have success: "\<forall>ctx. fst (getCompleteContext cm) = Inr ctx \<longrightarrow>
         (\<forall>f\<in>set files. \<exists>content.
            fst (readFile f (disk (memoryManager cm))) = Inr content \<and>
            map_of ctx f = Some content) \<and>
         (\<forall>f. f \<notin> set files \<longrightarrow> map_of ctx f = None) \<and>
         calls (disk (memoryManager (snd (getCompleteContext cm)))) =
           calls (disk (memoryManager cm)) @ Readdir # map ReadFile files"
    proof (intro allI impI)
      fix ctx
      assume "fst (getCompleteContext cm) = Inr ctx"
      then have ok: "fst (readAll files [] ?mm1) = Inr ctx" using res by simp
      from readAll_Inr [OF ok] show
        "(\<forall>f\<in>set files. \<exists>content.
            fst (readFile f (disk (memoryManager cm))) = Inr content \<and>
            map_of ctx f = Some content) \<and>
         (\<forall>f. f \<notin> set files \<longrightarrow> map_of ctx f = None) \<and>
         calls (disk (memoryManager (snd (getCompleteContext cm)))) =
           calls (disk (memoryManager cm)) @ Readdir # map ReadFile files"
        using st by (simp add: mm1)
    qed
    have failure: "\<exists>f\<in>set files. \<exists>e. fst (readFile f (disk (memoryManager cm))) = Inl e \<and>
            fst (getCompleteContext cm) = Inl e"
      if bad: "\<exists>f\<in>set files. isl (fst (readFile f (disk (memoryManager cm))))"
    proof (cases "fst (readAll files [] ?mm1)")
      case (Inl e)
      from readAll_Inl [OF this] show ?thesis
        using Inl res by (auto simp: mm1)
    next
      case (Inr ctx)
      from readAll_Inr [OF this] bad show ?thesis
        by (auto simp: mm1)
    qed
    have returns: "\<exists>ctx. fst (getCompleteContext cm) = Inr ctx"
      if good: "\<forall>f\<in>set files. \<not> isl (fst (readFile f (disk (memoryManager cm))))"
    proof (cases "fst (readAll files [] ?mm1)")
      case (Inl e)
      from readAll_Inl [OF this] good show ?thesis
        by (auto simp: mm1)
    next
      case (Inr ctx)
      then show ?thesis using res by simp
    qed
    show ?thesis
      using success failure returns by blast
  qed
  show ?thesis
    using cache listfail main by blast
qed

theorem getCompleteContext_reads_store_witness:
  "fst (listMemoryFiles (memoryManager diverged_context)) = Inr [''notes.md'', ''empty.md''] \<and>
   contextCache (snd (getCompleteContext diverged_context)) = contextCache diverged_context \<and>
   (\<exists>ctx. fst (getCompleteContext diverged_context) = Inr ctx \<and>
      map_of ctx ''notes.md'' = Some ''hello'' \<and> map_of ctx ''draft.txt'' = None) \<and>
   calls (disk (memoryManager (snd (getCompleteContext diverged_context)))) =
     [Readdir, ReadFile ''notes.md'', ReadFile ''empty.md''] \<and>
   fst (listMemoryFiles (memoryManager unreadable_context)) = Inr [''notes.md'', ''empty.md''] \<and>
   fst (getCompleteContext unreadable_context) = Inl (EIO (ReadFile ''empty.md''))"
proof -
  let ?files = "[''notes.md'', ''empty.md'']"
  have listed: "fst (listMemoryFiles (memoryManager diverged_context)) = Inr ?files"
    by (simp add: listMemoryFiles_eq listing_def endsWith_def diverged_context_def
        example_store_def example_disk_def)
  have listed': "fst (listMemoryFiles (memoryManager unreadable_context)) = Inr ?files"
    by (simp add: listMemoryFiles_eq listing_def endsWith_def unreadable_context_def
        unreadable_store_def example_store_def example_disk_def)
  have reads: "fst (readFile ''notes.md'' (disk (memoryManager diverged_context))) = Inr ''hello''"
    "fst (readFile ''empty.md'' (disk (memoryManager diverged_context))) = Inr []"
    "calls (disk (memoryManager diverged_context)) = []"
    by (simp_all add: readFile_def diverged_context_def example_store_def example_disk_def)
  have reads': "fst (readFile ''notes.md'' (disk (memoryManager unreadable_context))) = Inr ''hello''"
    "fst (readFile ''empty.md'' (disk (memoryManager unreadable_context)))
       = Inl (EIO (ReadFile ''empty.md''))"
    by (simp_all add: readFile_def unreadable_context_def unreadable_store_def
        example_store_def example_disk_def)
  note good = getCompleteContext_reads_store [of diverged_context]
  note bad = getCompleteContext_reads_store [of unreadable_context]
  have c1: "contextCache (snd (getCompleteContext diverged_context)) = contextCache diverged_context"
    using good by blast
  have "\<forall>f\<in>set ?files. \<not> isl (fst (readFile f (disk (memoryManager diverged_context))))"
    using reads by simp
  then obtain ctx where ctx: "fst (getCompleteContext diverged_context) = Inr ctx"
    using good listed by blast
  have "\<exists>content. fst (readFile ''notes.md'' (disk (memoryManager diverged_context))) = Inr content \<and>
          map_of ctx ''notes.md'' = Some content"
    using good listed ctx by (auto simp del: fst_readFile_logged)
  then have c2: "map_of ctx ''notes.md'' = Some ''hello''"
    using reads by simp
  have "''draft.txt'' \<notin> set ?files" by simp
  then have c3: "map_of ctx ''draft.txt'' = None"
    using good listed ctx by blast
  have "calls (disk (memoryManager (snd (getCompleteContext diverged_context)))) =
          calls (disk (memoryManager diverged_context)) @ Readdir # map ReadFile ?files"
    using good listed ctx by blast
  then have c4: "calls (disk (memoryManager (snd (getCompleteContext diverged_context)))) =
      [Readdir, ReadFile ''notes.md'', ReadFile ''empty.md'']"
    using reads by simp
  have "\<exists>f\<in>set ?files. isl (fst (readFile f (disk (memoryManager unreadable_context))))"
    using reads' by simp
  then have "\<exists>f\<in>set ?files. \<exists>e.
      fst (readFile f (disk (memoryManager unreadable_context))) = Inl e \<and>
      fst (getCompleteContext unreadable_context) = Inl e"
    using bad listed' by blast
  then have c5: "fst (getCompleteContext unreadable_context) = Inl (EIO (ReadFile ''empty.md''))"
    using reads' by auto
  show ?thesis
    using listed c1 ctx c2 c3 c4 listed' c5 by blast
qed

text \<open>
  The claim C3 fails: \<open>notes.md\<close> has a live cache entry, which \<open>getContext\<close> returns
  without a store read, and \<open>getCompleteContext\<close> reads \<open>notes.md\<close> from the store all
  the same and returns the content of the file, not the cached copy.
\<close>

theorem complete_context_bypasses_cache:
  "fst (getContext 1 ''notes.md'' diverged_context) = Inr ''cached copy'' \<and>
   store_reads (snd (getContext 1 ''notes.md'' diverged_context)) = 0 \<and>
   fst (getCompleteContext diverged_context)
     = Inr [(''notes.md'', ''hello''), (''empty.md'', [])] \<and>
   calls (disk (memoryManager (snd (getCompleteContext diverged_context))))
     = [Readdir, ReadFile ''notes.md'', ReadFile ''empty.md'']"
  by (simp add: getContext_def getCompleteContext_def listMemoryFiles_def readdir_def
      endsWith_def readMemoryFile_def readFile_def lru_get_def isStale_def cache_ttl_def
      truthy_def logged_def store_reads_def diverged_context_def example_store_def
      example_disk_def)

text \<open>
  C5. \<open>updateContext\<close> returns what the write to the store returns and leaves the store
  as that write leaves it. When the write fails, the error is the result and the cache
  is the one before the call. When it succeeds, the store holds the value under the key
  and the cache is the old cache with the entry for the key set to the value, stamped
  with the time of the call, whatever was cached under the key before.
\<close>

theorem updateContext_write_through:
  "fst (updateContext now k v cm) = fst (writeMemoryFile k v (memoryManager cm)) \<and>
   memoryManager (snd (updateContext now k v cm)) = snd (writeMemoryFile k v (memoryManager cm)) \<and>
   (\<forall>e. fst (writeMemoryFile k v (memoryManager cm)) = Inl e \<longrightarrow>
      contextCache (snd (updateContext now k v cm)) = contextCache cm) \<and>
   (fst (writeMemoryFile k v (memoryManager cm)) = Inr () \<longrightarrow>
      contextCache (snd (updateContext now k v cm)) = lru_set now k v (contextCache cm) \<and>
      map_of (contextCache (snd (updateContext now k v cm))) k = Some (v, now) \<and>
      (\<exists>es. dir (disk (memoryManager (snd (updateContext now k v cm)))) = Some es \<and>
            map_of es k = Some v))"
proof -
  obtain r mm' where w: "writeMemoryFile k v (memoryManager cm) = (r, mm')"
    by (cases "writeMemoryFile k v (memoryManager cm)")
  show ?thesis
  proof (cases r)
    case (Inl e)
    then show ?thesis using w by (simp add: updateContext_def)
  next
    case (Inr u)
    have "\<exists>es. dir (disk mm') = Some es \<and> map_of es k = Some v"
      using writeMemoryFile_stored [of k v "memoryManager cm"] w Inr by simp
    then show ?thesis using w Inr by (simp add: updateContext_def map_of_lru_set)
  qed
qed

theorem updateContext_write_through_witness:
  "fst (writeMemoryFile ''notes.md'' ''new text'' (memoryManager diverged_context)) = Inr () \<and>
   fst (updateContext 5 ''notes.md'' ''new text'' diverged_context) = Inr () \<and>
   map_of (contextCache (snd (updateContext 5 ''notes.md'' ''new text'' diverged_context)))
      ''notes.md'' = Some (''new text'', 5) \<and>
   (\<exists>es. dir (disk (memoryManager (snd (updateContext 5 ''notes.md'' ''new text'' diverged_context))))
           = Some es \<and> map_of es ''notes.md'' = Some ''new text'') \<and>
   fst (writeMemoryFile ''notes.md'' ''new text'' (memoryManager readonly_context))
     = Inl (EIO (WriteFile ''notes.md'')) \<and>
   fst (updateContext 5 ''notes.md'' ''new text'' readonly_context)
     = Inl (EIO (WriteFile ''notes.md'')) \<and>
   contextCache (snd (updateContext 5 ''notes.md'' ''new text'' readonly_context))
     = contextCache readonly_context"
proof -
  have ok: "fst (writeMemoryFile ''notes.md'' ''new text'' (memoryManager diverged_context)) = Inr ()"
    by (simp add: writeMemoryFile_def ensureDir_def writeFile_def diverged_context_def
        example_store_def example_disk_def)
  have refused: "fst (writeMemoryFile ''notes.md'' ''new text'' (memoryManager readonly_context))
      = Inl (EIO (WriteFile ''notes.md''))"
    by (simp add: writeMemoryFile_def ensureDir_def writeFile_def readonly_context_def
        readonly_store_def example_store_def example_disk_def)
  note good = updateContext_write_through [of 5 "''notes.md''" "''new text''" diverged_context]
  note bad = updateContext_write_through [of 5 "''notes.md''" "''new text''" readonly_context]
  have g1: "fst (updateContext 5 ''notes.md'' ''new text'' diverged_context) = Inr ()"
    using good ok by simp
  have g2: "map_of (contextCache (snd (updateContext 5 ''notes.md'' ''new text'' diverged_context)))
      ''notes.md'' = Some (''new text'', 5)"
    using good ok by blast
  have g3: "\<exists>es. dir (disk (memoryManager (snd (updateContext 5 ''notes.md'' ''new text'' diverged_context))))
           = Some es \<and> map_of es ''notes.md'' = Some ''new text''"
    using good ok by blast
  have b1: "fst (updateContext 5 ''notes.md'' ''new text'' readonly_context)
     = Inl (EIO (WriteFile ''notes.md''))"
    using bad refused by simp
  have b2: "contextCache (snd (updateContext 5 ''notes.md'' ''new text'' readonly_context))
     = contextCache readonly_context"
    using bad refused by blast
  show ?thesis
    using ok g1 g2 g3 refused b1 b2 by blast
qed

text \<open>
  C6, at the input where the code leaves the claim. \<open>updateContext\<close> writes the empty
  string under \<open>notes.md\<close> and caches it, without a store read. The \<open>getContext\<close> that
  follows finds the entry, takes the empty string for a miss and reads the store: it
  returns the empty string, after one store read where the claim has none.
\<close>

theorem empty_update_read_back_from_store:
  "fst (updateContext 0 ''notes.md'' [] example_context) = Inr () \<and>
   map_of (contextCache (snd (updateContext 0 ''notes.md'' [] example_context))) ''notes.md''
     = Some ([], 0) \<and>
   store_reads (snd (updateContext 0 ''notes.md'' [] example_context)) = 0 \<and>
   fst (getContext 1 ''notes.md'' (snd (updateContext 0 ''notes.md'' [] example_context)))
     = Inr [] \<and>
   store_reads (snd (getContext 1 ''notes.md''
      (snd (updateContext 0 ''notes.md'' [] example_context)))) = 1"
  by (simp add: updateContext_def writeMemoryFile_def ensureDir_def writeFile_def
      getContext_def loadContext_def readMemoryFile_def readFile_def lru_get_def lru_set_def
      isStale_def cache_ttl_def cache_max_def truthy_def logged_def store_reads_def
      example_context_def example_store_def example_disk_def)

end
